theory Spec2Isabelle
  imports Main
begin

section \<open>Data model of the session gateway (server.js)\<close>

text \<open>
  The server keeps three process-wide dictionaries keyed by the session identifier:
  \<open>connections\<close> (the socket object of a session), \<open>recentMessages\<close> (the buffer
  polled over HTTP) and \<open>qrCodes\<close> (the last rendered pairing image). Each of them is
  a plain JavaScript object (\<open>{}\<close>) and the key is chosen by the caller, so a lookup
  \<open>obj[sessionId]\<close> also finds what the object inherits: the methods of
  \<open>Object.prototype\<close> under names such as \<open>constructor\<close>, and under \<open>__proto__\<close> the
  prototype itself. A dictionary is therefore modelled by the map of its own properties
  together with its prototype, and a lookup says what kind of value it found.

  Socket objects made by the protocol engine have identity, so they live in a store
  (\<open>socks\<close>, in creation order) and the dictionary holds their index.

  JavaScript runs every handler to its next \<open>await\<close> without interruption. A handler is
  therefore modelled as one function per uninterrupted segment, and whatever the awaited
  collaborator answers (credential load, image rendering, logout, send) is an argument
  of the segment that runs after it.
\<close>

type_synonym sessionId = string
type_synonym socketId = string

text \<open>An error value carries the \<open>message\<close> of the thrown JavaScript error.\<close>

type_synonym error = string

text \<open>
  Inbound message records as the handler reads them: \<open>msg.key\<close> may be missing, and
  \<open>msg.key.fromMe\<close> is a boolean that may be absent (absent is falsy).
\<close>

record msg_key =
  fromMe :: "bool option"
  key_id :: string

record message =
  key :: "msg_key option"
  text_of :: string

text \<open>
  The payload of a \<open>messages.upsert\<close> event. \<open>messages = None\<close> stands for a payload whose
  \<open>messages\<close> field is missing or is not an array.
\<close>

record upsert_data =
  messages :: "message list option"
  upsert_type :: string

text \<open>
  The engine's \<open>DisconnectReason\<close> table is not part of the repository; its \<open>loggedOut\<close>
  member is kept symbolic and every other status code is a number.
\<close>

datatype disconnect_code = loggedOut | other_code nat

datatype conn = conn_open | conn_connecting | conn_close

text \<open>
  A \<open>connection.update\<close> payload: \<open>connection\<close>, the status code found at
  \<open>lastDisconnect?.error?.output?.statusCode\<close> (\<open>None\<close> is \<open>undefined\<close>) and \<open>qr\<close>.
\<close>

record update =
  connection :: "conn option"
  statusCode :: "disconnect_code option"
  qr :: "string option"

text \<open>
  A socket object: the \<open>sessionId\<close> and \<open>socketId\<close> its event handlers closed over, and
  the \<open>user\<close> field that the engine maintains.
\<close>

record sock =
  sock_session :: sessionId
  sock_socket :: "socketId option"
  user :: "string option"

text \<open>Events pushed over Socket.io, each sent to one socket identifier.\<close>

datatype push_event =
    qr_event string
  | connection_open_event "string option" bool
  | connection_close_event bool "disconnect_code option"
  | messages_event upsert_data
  | session_started_event bool "error option"

text \<open>Calls made on a socket object.\<close>

datatype engine_call =
    logout_call nat
  | sendMessage_call nat string string

text \<open>
  Who awaits a call of \<open>startWhatsAppConnection\<close>: the HTTP route, the Socket.io
  handler of a client, or nobody (the reconnect in the close branch).
\<close>

datatype caller = http_caller | ws_caller socketId | reconnect_caller

datatype start_task = start_task sessionId "socketId option" caller

subsection \<open>Plain objects used as dictionaries\<close>

text \<open>
  The property names that every plain object inherits from \<open>Object.prototype\<close>; all of
  them hold functions. \<open>__proto__\<close> is inherited too, but as an accessor: reading it gives
  the prototype of the object, and assigning an object to it replaces the prototype.
\<close>

definition object_names :: "string list" where
  "object_names = [''constructor'', ''hasOwnProperty'', ''isPrototypeOf'',
                   ''propertyIsEnumerable'', ''toLocaleString'', ''toString'', ''valueOf'',
                   ''__defineGetter__'', ''__defineSetter__'', ''__lookupGetter__'',
                   ''__lookupSetter__'']"

definition inherited :: "string \<Rightarrow> bool" where
  "inherited k = (k = ''__proto__'' \<or> k \<in> set object_names)"

text \<open>
  What \<open>obj[k]\<close> finds: nothing (\<open>undefined\<close>), a value the server has stored, one of
  the inherited functions, or \<open>Object.prototype\<close> itself. A stored socket or array is
  truthy, and so is a stored string unless it is empty; an inherited function and
  \<open>Object.prototype\<close> are truthy, and neither a socket, nor an array, nor a string. When
  the prototype
  of the dictionary has been replaced (by a socket object or by an array), what a key
  that is not an own property finds depends on the properties of that object and of its
  own prototype, which the source of the repository does not determine: the lookup is
  \<open>unknown\<close>.
\<close>

datatype 'a found = nothing | a_value 'a | a_function | the_object_prototype | unknown

text \<open>
  \<open>props\<close> are the own properties; \<open>proto = None\<close> is the original prototype
  \<open>Object.prototype\<close>, and \<open>proto = Some p\<close> is a prototype replaced by the value \<open>p\<close>.
\<close>

definition lookup :: "(string \<rightharpoonup> 'a) \<Rightarrow> 'a option \<Rightarrow> string \<Rightarrow> 'a found" where
  "lookup props proto k =
     (case props k of
        Some v \<Rightarrow> a_value v
      | None \<Rightarrow>
          (if k = ''__proto__''
           then (case proto of None \<Rightarrow> the_object_prototype | Some p \<Rightarrow> a_value p)
           else (case proto of
                   Some p \<Rightarrow> unknown
                 | None \<Rightarrow> if k \<in> set object_names then a_function else nothing)))"

text \<open>
  \<open>obj[k] = v\<close> for an object \<open>v\<close> (a socket or an array): an own property is
  overwritten; otherwise the key \<open>__proto__\<close> makes \<open>v\<close> the prototype of the dictionary,
  and any other key becomes an own property. Under a replaced prototype the effect for a
  key that is not an own property is not determined by the source (\<open>None\<close>).
\<close>

definition assign ::
  "(string \<rightharpoonup> 'a) \<Rightarrow> 'a option \<Rightarrow> string \<Rightarrow> 'a \<Rightarrow> ((string \<rightharpoonup> 'a) \<times> 'a option) option" where
  "assign props proto k v =
     (if props k \<noteq> None then Some (props(k \<mapsto> v), proto)
      else if k = ''__proto__'' then Some (props, Some v)
      else if proto \<noteq> None then None
      else Some (props(k \<mapsto> v), proto))"

text \<open>
  \<open>obj[k] = v\<close> for a string \<open>v\<close>, on a dictionary whose prototype is never replaced:
  assigning a string to \<open>__proto__\<close> does nothing.
\<close>

definition assign_string :: "(string \<rightharpoonup> string) \<Rightarrow> string \<Rightarrow> string \<Rightarrow> (string \<rightharpoonup> string)" where
  "assign_string props k v =
     (if props k = None \<and> k = ''__proto__'' then props else props(k \<mapsto> v))"

text \<open>\<open>delete obj[k]\<close> removes an own property and nothing else: \<open>props(k := None)\<close>.\<close>

record state =
  connections :: "sessionId \<rightharpoonup> nat"
  connections_proto :: "nat option"
  recentMessages :: "sessionId \<rightharpoonup> message list"
  recentMessages_proto :: "message list option"
  qrCodes :: "sessionId \<rightharpoonup> string"
  socks :: "sock list"
  pending :: "start_task list"
  emitted :: "(socketId \<times> push_event) list"
  calls :: "engine_call list"

definition init :: state where
  "init = \<lparr>connections = Map.empty, connections_proto = None,
            recentMessages = Map.empty, recentMessages_proto = None, qrCodes = Map.empty,
            socks = [], pending = [], emitted = [], calls = []\<rparr>"

text \<open>The three lookups of the handlers.\<close>

definition connection_of :: "state \<Rightarrow> sessionId \<Rightarrow> nat found" where
  "connection_of s sessionId = lookup (connections s) (connections_proto s) sessionId"

definition messages_of :: "state \<Rightarrow> sessionId \<Rightarrow> message list found" where
  "messages_of s sessionId = lookup (recentMessages s) (recentMessages_proto s) sessionId"

definition qrCode_of :: "state \<Rightarrow> sessionId \<Rightarrow> string found" where
  "qrCode_of s sessionId = lookup (qrCodes s) None sessionId"

subsection \<open>HTTP responses\<close>

datatype body =
    status_body bool "string option"
  | active_body bool string
  | qrCode_body string
  | error_connected_body string bool
  | error_body string
  | messages_body "message list"
  | messages_object_body
  | no_field_body
  | success_body bool
  | success_message_body bool string

text \<open>
  \<open>messages_object_body\<close> is the body \<open>{"messages":{}}\<close> and \<open>no_field_body\<close> the body
  \<open>{}\<close>: what \<open>res.json({ messages })\<close> sends when \<open>messages\<close> is
  \<open>Object.prototype\<close> (it has no enumerable property), and when it is a function (JSON
  leaves out a field that holds a function).
\<close>

type_synonym response = "nat \<times> body"

text \<open>The fixed texts of the responses; non-ASCII letters are given by their code unit.\<close>

definition sessao :: string where
  "sessao = ''Sess'' @ [char_of (227::nat)] @ ''o''"

definition sessao_ja_esta :: string where
  "sessao_ja_esta = sessao @ '' j'' @ [char_of (225::nat)] @ '' est'' @ [char_of (225::nat)]"

definition msg_ativa :: string where
  "msg_ativa = sessao_ja_esta @ '' ativa''"

definition msg_desconectada :: string where
  "msg_desconectada = sessao_ja_esta @ '' desconectada''"

definition msg_nao_encontrada :: string where
  "msg_nao_encontrada = sessao @ '' n'' @ [char_of (227::nat)] @ ''o encontrada''"


definition msg_erro_enviar :: string where
  "msg_erro_enviar = ''Erro ao enviar mensagem''"

subsection \<open>JavaScript truthiness of the tested values\<close>

definition truthy :: "string option \<Rightarrow> bool" where
  "truthy v = (case v of None \<Rightarrow> False | Some x \<Rightarrow> x \<noteq> [])"

text \<open>\<open>if (socketId) io.to(socketId).emit(...)\<close>: the sockets an event is pushed to.\<close>

definition push_target :: "socketId option \<Rightarrow> socketId list" where
  "push_target socketId = (case socketId of None \<Rightarrow> [] | Some k \<Rightarrow> if k = [] then [] else [k])"

definition emit :: "socketId option \<Rightarrow> push_event \<Rightarrow> state \<Rightarrow> state" where
  "emit socketId ev s = s\<lparr>emitted := emitted s @ map (\<lambda>k. (k, ev)) (push_target socketId)\<rparr>"

section \<open>startWhatsAppConnection\<close>

text \<open>
  The call runs up to \<open>await useMultiFileAuthState\<close> (it only creates the session folder
  before that) and is suspended there: \<open>call_start\<close> records the suspended call.
\<close>

definition call_start :: "state \<Rightarrow> sessionId \<Rightarrow> socketId option \<Rightarrow> caller \<Rightarrow> state" where
  "call_start s sessionId socketId c =
     s\<lparr>pending := pending s @ [start_task sessionId socketId c]\<rparr>"

text \<open>
  The rest of the function, run when the credentials are loaded: \<open>makeWASocket\<close> creates
  a socket object, the handlers are registered on it, and \<open>connections[sessionId] = sock\<close>
  stores it. A failed load rejects the call and nothing is created. The state is \<open>None\<close>
  when the effect of the assignment is not determined (see \<open>assign\<close>); the function
  returns the socket all the same. The handler of \<open>creds.update\<close> only saves the
  credentials and touches none of the dictionaries; it is left out.
\<close>

definition startWhatsAppConnection ::
  "state \<Rightarrow> sessionId \<Rightarrow> socketId option \<Rightarrow> error + unit \<Rightarrow> state option \<times> (error + nat)" where
  "startWhatsAppConnection s sessionId socketId auth =
     (case auth of
        Inl e \<Rightarrow> (Some s, Inl e)
      | Inr _ \<Rightarrow>
          (let h = length (socks s);
               s1 = s\<lparr>socks := socks s @ [\<lparr>sock_session = sessionId, sock_socket = socketId,
                                           user = None\<rparr>]\<rparr>
           in (case assign (connections s1) (connections_proto s1) sessionId h of
                 None \<Rightarrow> (None, Inr h)
               | Some (props, proto) \<Rightarrow>
                   (Some (s1\<lparr>connections := props, connections_proto := proto\<rparr>), Inr h))))"

text \<open>The engine may set the \<open>user\<close> field of a socket object it made.\<close>

definition engine_user :: "state \<Rightarrow> nat \<Rightarrow> string option \<Rightarrow> state" where
  "engine_user s h u =
     (if h < length (socks s) then s\<lparr>socks := (socks s)[h := (socks s ! h)\<lparr>user := u\<rparr>]\<rparr> else s)"

subsection \<open>The connection.update handler\<close>

definition update_qr :: "state \<Rightarrow> sock \<Rightarrow> string \<Rightarrow> state" where
  "update_qr s k qrCodeDataURL =
     emit (sock_socket k) (qr_event qrCodeDataURL)
       (s\<lparr>qrCodes := assign_string (qrCodes s) (sock_session k) qrCodeDataURL\<rparr>)"

definition update_open :: "state \<Rightarrow> sock \<Rightarrow> state" where
  "update_open s k =
     emit (sock_socket k) (connection_open_event (user k) True)
       (s\<lparr>qrCodes := (qrCodes s)(sock_session k := None)\<rparr>)"

definition shouldReconnect :: "disconnect_code option \<Rightarrow> bool" where
  "shouldReconnect code = (code \<noteq> Some loggedOut)"

definition update_close :: "state \<Rightarrow> sock \<Rightarrow> disconnect_code option \<Rightarrow> state" where
  "update_close s k code =
     (let s1 = emit (sock_socket k) (connection_close_event (shouldReconnect code) code) s
      in if \<not> shouldReconnect code
         then s1\<lparr>connections := (connections s1)(sock_session k := None),
                 qrCodes := (qrCodes s1)(sock_session k := None),
                 recentMessages := (recentMessages s1)(sock_session k := None)\<rparr>
         else call_start s1 (sock_session k) (sock_socket k) reconnect_caller)"

definition update_rest :: "state \<Rightarrow> nat \<Rightarrow> update \<Rightarrow> state" where
  "update_rest s h upd =
     (let s1 = (if connection upd = Some conn_open then update_open s (socks s ! h) else s)
      in if connection upd = Some conn_close
         then update_close s1 (socks s1 ! h) (statusCode upd) else s1)"

text \<open>
  The whole handler on socket \<open>h\<close>. With a \<open>qr\<close> it awaits the rendering first; all its
  effects come after that. \<open>rendered\<close> is what \<open>qrcode.toDataURL\<close> answered; when the
  rendering failed the handler is rejected with that error before any effect (\<open>Inl\<close>),
  and nothing in the source handles the rejection. A handle that no socket has receives
  no event.
\<close>

definition connection_update :: "state \<Rightarrow> nat \<Rightarrow> update \<Rightarrow> error + string \<Rightarrow> error + state" where
  "connection_update s h upd rendered =
     (if h < length (socks s)
      then (if truthy (qr upd)
            then (case rendered of
                    Inl e \<Rightarrow> Inl e
                  | Inr qrCodeDataURL \<Rightarrow>
                      Inr (update_rest (update_qr s (socks s ! h) qrCodeDataURL) h upd))
            else Inr (update_rest s h upd))
      else Inr s)"

subsection \<open>The messages.upsert handler\<close>

definition inbound :: "message \<Rightarrow> bool" where
  "inbound msg = (case key msg of None \<Rightarrow> False | Some k \<Rightarrow> fromMe k \<noteq> Some True)"

text \<open>\<open>xs.slice(-n)\<close>: the last \<open>n\<close> elements, all of them when there are fewer.\<close>

definition slice_last :: "nat \<Rightarrow> 'a list \<Rightarrow> 'a list" where
  "slice_last n xs = drop (length xs - n) xs"

text \<open>The messages of a payload that pass the handler's filter.\<close>

definition inbound_of :: "upsert_data \<Rightarrow> message list" where
  "inbound_of data = (case messages data of None \<Rightarrow> [] | Some ms \<Rightarrow> filter inbound ms)"

text \<open>
  The array found under \<open>sessionId\<close> gets new contents, by \<open>push\<close> in place or by the
  assignment of the slice: it is an own property, or else the prototype that a lookup
  of \<open>__proto__\<close> has found.
\<close>

definition put_messages :: "state \<Rightarrow> sessionId \<Rightarrow> message list \<Rightarrow> state" where
  "put_messages s sessionId b =
     (if recentMessages s sessionId \<noteq> None
      then s\<lparr>recentMessages := (recentMessages s)(sessionId \<mapsto> b)\<rparr>
      else s\<lparr>recentMessages_proto := Some b\<rparr>)"

text \<open>
  The first part of the handler, up to the trimming. \<open>if (!recentMessages[sessionId])\<close>
  creates the array only when the lookup finds nothing. \<open>push\<close> exists only on an
  array: on an inherited function or on \<open>Object.prototype\<close> the call throws a TypeError
  out of the handler (\<open>Inl\<close>), and the rest of the handler does not run. The result is
  \<open>None\<close> when the lookup is unknown.
\<close>

definition store_messages :: "state \<Rightarrow> sessionId \<Rightarrow> upsert_data \<Rightarrow> (error + state) option" where
  "store_messages s sessionId data =
     (case messages_of s sessionId of
        unknown \<Rightarrow> None
      | found0 \<Rightarrow>
          (let s1 = (if found0 = nothing
                     then s\<lparr>recentMessages := (recentMessages s)(sessionId \<mapsto> [])\<rparr> else s)
           in case messages data of
                None \<Rightarrow> Some (Inr s1)
              | Some ms \<Rightarrow>
                  (let newMessages = filter inbound ms
                   in if length newMessages > 0
                      then (case messages_of s1 sessionId of
                              a_value b \<Rightarrow>
                                (let after_push = b @ newMessages
                                 in Some (Inr (put_messages s1 sessionId
                                      (if length after_push > 50
                                       then slice_last 50 after_push else after_push))))
                            | unknown \<Rightarrow> None
                            | _ \<Rightarrow> Some (Inl ''recentMessages[sessionId].push is not a function''))
                      else Some (Inr s1))))"

definition messages_upsert :: "state \<Rightarrow> nat \<Rightarrow> upsert_data \<Rightarrow> (error + state) option" where
  "messages_upsert s h data =
     (if h < length (socks s)
      then (case store_messages s (sock_session (socks s ! h)) data of
              None \<Rightarrow> None
            | Some (Inl e) \<Rightarrow> Some (Inl e)
            | Some (Inr s1) \<Rightarrow> Some (Inr (emit (sock_socket (socks s ! h)) (messages_event data) s1)))
      else Some (Inr s))"

section \<open>The HTTP routes\<close>

text \<open>
  A route answers \<open>None\<close> when its lookup is unknown. \<open>x.user\<close>, \<open>x.logout\<close> and
  \<open>x.sendMessage\<close> are \<open>undefined\<close> when \<open>x\<close> is an inherited function or
  \<open>Object.prototype\<close>.
\<close>

subsection \<open>GET /api/status/:sessionId\<close>

definition getStatus :: "state \<Rightarrow> sessionId \<Rightarrow> response option" where
  "getStatus s sessionId =
     (case connection_of s sessionId of
        nothing \<Rightarrow> Some (200, status_body False None)
      | a_value h \<Rightarrow> Some (200, status_body True
                       (Some (case user (socks s ! h) of Some u \<Rightarrow> u | None \<Rightarrow> ''unknown'')))
      | unknown \<Rightarrow> None
      | _ \<Rightarrow> Some (200, status_body True (Some ''unknown'')))"

definition connected :: "response \<Rightarrow> bool" where
  "connected r = (case snd r of status_body c u \<Rightarrow> c | active_body c m \<Rightarrow> c
                  | error_connected_body e c \<Rightarrow> c | _ \<Rightarrow> False)"

subsection \<open>POST /api/start-session/:sessionId\<close>

text \<open>
  The route answers at once when the lookup is truthy, and calls
  \<open>startWhatsAppConnection\<close> otherwise; the check is made before the call is suspended.
\<close>

definition start_session :: "state \<Rightarrow> sessionId \<Rightarrow> (state \<times> response option) option" where
  "start_session s sessionId =
     (case connection_of s sessionId of
        nothing \<Rightarrow> Some (call_start s sessionId None http_caller, None)
      | unknown \<Rightarrow> None
      | _ \<Rightarrow> Some (s, Some (200, active_body True msg_ativa)))"


subsection \<open>GET /api/messages/:sessionId\<close>

text \<open>
  \<open>recentMessages[sessionId] || []\<close> is the array found, the empty array when nothing
  is found, and otherwise the inherited value itself. Then \<open>recentMessages[sessionId] = []\<close>
  is assigned.
\<close>

definition get_messages :: "state \<Rightarrow> sessionId \<Rightarrow> (state \<times> response) option" where
  "get_messages s sessionId =
     (case connection_of s sessionId of
        nothing \<Rightarrow> Some (s, (404, error_body msg_nao_encontrada))
      | unknown \<Rightarrow> None
      | _ \<Rightarrow>
          (case assign (recentMessages s) (recentMessages_proto s) sessionId [] of
             None \<Rightarrow> None
           | Some (props, proto) \<Rightarrow>
               (case messages_of s sessionId of
                  unknown \<Rightarrow> None
                | nothing \<Rightarrow> Some (s\<lparr>recentMessages := props, recentMessages_proto := proto\<rparr>,
                                   (200, messages_body []))
                | a_value b \<Rightarrow> Some (s\<lparr>recentMessages := props, recentMessages_proto := proto\<rparr>,
                                     (200, messages_body b))
                | a_function \<Rightarrow> Some (s\<lparr>recentMessages := props, recentMessages_proto := proto\<rparr>,
                                      (200, no_field_body))
                | the_object_prototype \<Rightarrow>
                    Some (s\<lparr>recentMessages := props, recentMessages_proto := proto\<rparr>,
                          (200, messages_object_body)))))"

subsection \<open>POST /api/disconnect/:sessionId\<close>

text \<open>
  The route up to \<open>await sock.logout()\<close>, and the rest of it, run with the answer of
  the logout on the state found at that time. When the lookup found something that is
  not a socket, the call \<open>sock.logout()\<close> itself throws inside the \<open>try\<close>.
\<close>

definition disconnect_begin :: "state \<Rightarrow> sessionId \<Rightarrow> (state \<times> response option) option" where
  "disconnect_begin s sessionId =
     (case connection_of s sessionId of
        nothing \<Rightarrow> Some (s, Some (200, success_message_body True msg_desconectada))
      | a_value h \<Rightarrow> Some (s\<lparr>calls := calls s @ [logout_call h]\<rparr>, None)
      | unknown \<Rightarrow> None
      | _ \<Rightarrow> Some (s, Some (500, error_body ''sock.logout is not a function'')))"

definition disconnect_resume :: "state \<Rightarrow> sessionId \<Rightarrow> error + unit \<Rightarrow> state \<times> response" where
  "disconnect_resume s sessionId logged_out =
     (case logged_out of
        Inr _ \<Rightarrow> (s\<lparr>connections := (connections s)(sessionId := None),
                     qrCodes := (qrCodes s)(sessionId := None),
                     recentMessages := (recentMessages s)(sessionId := None)\<rparr>,
                  (200, success_body True))
      | Inl e \<Rightarrow> (s, (500, error_body e)))"

definition disconnect :: "state \<Rightarrow> sessionId \<Rightarrow> error + unit \<Rightarrow> (state \<times> response) option" where
  "disconnect s sessionId logged_out =
     (case disconnect_begin s sessionId of
        None \<Rightarrow> None
      | Some (s1, Some r) \<Rightarrow> Some (s1, r)
      | Some (s1, None) \<Rightarrow> Some (disconnect_resume s1 sessionId logged_out))"

subsection \<open>POST /api/send-message/:sessionId\<close>

definition is_digit :: "char \<Rightarrow> bool" where
  "is_digit c = (c \<in> set ''0123456789'')"

definition formattedNumber :: "string \<Rightarrow> string" where
  "formattedNumber number = filter is_digit number @ ''@s.whatsapp.net''"

text \<open>
  \<open>number = None\<close> is a request body without a string \<open>number\<close>: \<open>number.replace\<close> throws
  inside the \<open>try\<close>. \<open>sent\<close> is the answer of the engine's \<open>sendMessage\<close>. When the
  lookup found something that is not a socket, \<open>connection.sendMessage\<close> is not a
  function and the call throws inside the \<open>try\<close>.
\<close>

definition send_message ::
  "state \<Rightarrow> sessionId \<Rightarrow> string option \<Rightarrow> string \<Rightarrow> error + unit \<Rightarrow> (state \<times> response) option" where
  "send_message s sessionId number message sent =
     (case connection_of s sessionId of
        nothing \<Rightarrow> Some (s, (404, success_message_body False msg_nao_encontrada))
      | unknown \<Rightarrow> None
      | a_value h \<Rightarrow>
          (case number of
             None \<Rightarrow> Some (s, (500, success_message_body False msg_erro_enviar))
           | Some n \<Rightarrow>
               Some (s\<lparr>calls := calls s @ [sendMessage_call h (formattedNumber n) message]\<rparr>,
                     (case sent of
                        Inr _ \<Rightarrow> (200, success_body True)
                      | Inl e \<Rightarrow> (500, success_message_body False msg_erro_enviar))))
      | _ \<Rightarrow> Some (s, (500, success_message_body False msg_erro_enviar)))"

section \<open>Runs of the server\<close>

text \<open>
  What happens to a call of \<open>startWhatsAppConnection\<close> when the credentials are loaded:
  the function finishes, and its caller goes on. The HTTP route sets the polling interval
  or answers 500; the Socket.io handler sends \<open>session-started\<close>; the reconnect of the
  close branch handles nothing, so a failed load is a rejection that nobody handles.
\<close>

datatype start_result = polling | responded response | no_reply

definition auth_loaded ::
  "state \<Rightarrow> start_task \<Rightarrow> error + unit \<Rightarrow> state option \<times> start_result" where
  "auth_loaded s t auth =
     (if t \<in> set (pending s)
      then (case t of start_task sessionId socketId c \<Rightarrow>
              (case startWhatsAppConnection (s\<lparr>pending := remove1 t (pending s)\<rparr>)
                      sessionId socketId auth of
                 (s1, r) \<Rightarrow>
                   (case c of
                      http_caller \<Rightarrow>
                        (s1, case r of Inl e \<Rightarrow> responded (500, error_body e) | Inr _ \<Rightarrow> polling)
                    | ws_caller k \<Rightarrow>
                        (map_option (\<lambda>s2. s2\<lparr>emitted := emitted s2 @
                              [(k, case r of Inl e \<Rightarrow> session_started_event False (Some e)
                                           | Inr _ \<Rightarrow> session_started_event True None)]\<rparr>) s1,
                         no_reply)
                    | reconnect_caller \<Rightarrow>
                        (case r of Inl e \<Rightarrow> None | Inr _ \<Rightarrow> s1, no_reply))))
      else (Some s, no_reply))"

datatype event =
    http_start sessionId
  | ws_start socketId sessionId
  | credentials_loaded start_task "error + unit"
  | engine_update nat update "error + string"
  | engine_messages nat upsert_data
  | engine_sets_user nat "string option"
  | http_messages sessionId
  | http_disconnect sessionId
  | logout_answered sessionId "error + unit"
  | http_send sessionId "string option" string "error + unit"

text \<open>
  One step of the server. It is \<open>None\<close> where the model does not follow the server: an
  error has left a handler with nobody to catch it (what the engine and the runtime do
  with it is not in the source), or a lookup or an assignment depends on a replaced
  prototype.
\<close>

fun step :: "state \<Rightarrow> event \<Rightarrow> state option" where
  "step s (http_start sessionId) = map_option fst (start_session s sessionId)"
| "step s (ws_start k sessionId) = Some (call_start s sessionId (Some k) (ws_caller k))"
| "step s (credentials_loaded t auth) = fst (auth_loaded s t auth)"
| "step s (engine_update h upd rendered) =
     (case connection_update s h upd rendered of Inl e \<Rightarrow> None | Inr s1 \<Rightarrow> Some s1)"
| "step s (engine_messages h data) =
     (case messages_upsert s h data of Some (Inr s1) \<Rightarrow> Some s1 | _ \<Rightarrow> None)"
| "step s (engine_sets_user h u) = Some (engine_user s h u)"
| "step s (http_messages sessionId) = map_option fst (get_messages s sessionId)"
| "step s (http_disconnect sessionId) = map_option fst (disconnect_begin s sessionId)"
| "step s (logout_answered sessionId logged_out) =
     Some (fst (disconnect_resume s sessionId logged_out))"
| "step s (http_send sessionId number message sent) =
     map_option fst (send_message s sessionId number message sent)"

fun run :: "state \<Rightarrow> event list \<Rightarrow> state option" where
  "run s [] = Some s"
| "run s (e # es) = (case step s e of None \<Rightarrow> None | Some s1 \<Rightarrow> run s1 es)"

section \<open>The arrays of recentMessages\<close>

text \<open>
  The arrays that \<open>recentMessages\<close> holds, as own properties or as its prototype; the
  array that it has as an own property under a session name, the empty list when it has
  none there (what a lookup of the name finds is \<open>messages_of\<close>); and the trimming of
  the handler.
\<close>

definition arrays :: "state \<Rightarrow> message list set" where
  "arrays s = ran (recentMessages s) \<union> set_option (recentMessages_proto s)"

definition own_buffer :: "state \<Rightarrow> sessionId \<Rightarrow> message list" where
  "own_buffer s sessionId = (case recentMessages s sessionId of None \<Rightarrow> [] | Some b \<Rightarrow> b)"

definition trim :: "message list \<Rightarrow> message list" where
  "trim b = (if length b > 50 then slice_last 50 b else b)"

section \<open>Example sessions\<close>

text \<open>
  The server after a session \<open>s1\<close> was started over HTTP (\<open>started\<close>), after a
  Socket.io client \<open>k1\<close> started a session \<open>s1\<close> (\<open>pushed\<close>), a session named
  \<open>constructor\<close> (\<open>named\<close>) and a session named \<open>__proto__\<close> (\<open>proto_named\<close>); the
  runs that lead there are \<open>start_http\<close> and \<open>start_ws\<close>.
\<close>

definition start_http :: "sessionId \<Rightarrow> event list" where
  "start_http sessionId =
     [http_start sessionId, credentials_loaded (start_task sessionId None http_caller) (Inr ())]"

definition start_ws :: "socketId \<Rightarrow> sessionId \<Rightarrow> event list" where
  "start_ws k sessionId =
     [ws_start k sessionId,
      credentials_loaded (start_task sessionId (Some k) (ws_caller k)) (Inr ())]"

definition started :: state where
  "started = \<lparr>connections = [''s1'' \<mapsto> 0], connections_proto = None,
               recentMessages = Map.empty, recentMessages_proto = None, qrCodes = Map.empty,
               socks = [\<lparr>sock_session = ''s1'', sock_socket = None, user = None\<rparr>],
               pending = [], emitted = [], calls = []\<rparr>"

definition pushed :: state where
  "pushed = \<lparr>connections = [''s1'' \<mapsto> 0], connections_proto = None,
              recentMessages = Map.empty, recentMessages_proto = None, qrCodes = Map.empty,
              socks = [\<lparr>sock_session = ''s1'', sock_socket = Some ''k1'', user = None\<rparr>],
              pending = [], emitted = [(''k1'', session_started_event True None)], calls = []\<rparr>"

definition named :: state where
  "named = \<lparr>connections = [''constructor'' \<mapsto> 0], connections_proto = None,
             recentMessages = Map.empty, recentMessages_proto = None, qrCodes = Map.empty,
             socks = [\<lparr>sock_session = ''constructor'', sock_socket = Some ''k1'', user = None\<rparr>],
             pending = [], emitted = [(''k1'', session_started_event True None)], calls = []\<rparr>"

definition proto_named :: state where
  "proto_named = \<lparr>connections = Map.empty, connections_proto = Some 0,
             recentMessages = Map.empty, recentMessages_proto = None, qrCodes = Map.empty,
             socks = [\<lparr>sock_session = ''__proto__'', sock_socket = Some ''k1'', user = None\<rparr>],
             pending = [], emitted = [(''k1'', session_started_event True None)], calls = []\<rparr>"

text \<open>
  Sixty inbound messages, each delivered in a payload of its own, and a payload that
  mixes a message of the session's own identity, an inbound one and one without a key.
\<close>

definition numbered :: "nat \<Rightarrow> message" where
  "numbered n = \<lparr>key = Some \<lparr>fromMe = Some False, key_id = [char_of n]\<rparr>, text_of = ''hi''\<rparr>"

definition sixty :: "message list" where
  "sixty = map numbered [0..<60]"

definition single :: "message \<Rightarrow> upsert_data" where
  "single m = \<lparr>messages = Some [m], upsert_type = ''notify''\<rparr>"

definition own_message :: message where
  "own_message = \<lparr>key = Some \<lparr>fromMe = Some True, key_id = ''A''\<rparr>, text_of = ''mine''\<rparr>"

definition keyless_message :: message where
  "keyless_message = \<lparr>key = None, text_of = ''status''\<rparr>"

definition mixed :: upsert_data where
  "mixed = \<lparr>messages = Some [own_message, numbered 1, keyless_message], upsert_type = ''notify''\<rparr>"

text \<open>
  The session of client \<open>k1\<close> after a pairing code was rendered and the mixed payload
  came in; the two events that lead there from \<open>pushed\<close>; and two close events: after a
  logout, and after a lost connection.
\<close>

definition pairing_events :: "event list" where
  "pairing_events =
     [engine_update 0 \<lparr>connection = None, statusCode = None, qr = Some ''2@abc''\<rparr>
        (Inr ''data:image/png;base64,AAAA''),
      engine_messages 0 mixed]"

definition paired :: state where
  "paired = \<lparr>connections = [''s1'' \<mapsto> 0], connections_proto = None,
              recentMessages = [''s1'' \<mapsto> [numbered 1]], recentMessages_proto = None,
              qrCodes = [''s1'' \<mapsto> ''data:image/png;base64,AAAA''],
              socks = [\<lparr>sock_session = ''s1'', sock_socket = Some ''k1'', user = None\<rparr>],
              pending = [],
              emitted = [(''k1'', session_started_event True None),
                         (''k1'', qr_event ''data:image/png;base64,AAAA''),
                         (''k1'', messages_event mixed)],
              calls = []\<rparr>"

definition logout_close :: update where
  "logout_close = \<lparr>connection = Some conn_close, statusCode = Some loggedOut, qr = None\<rparr>"

definition lost_close :: update where
  "lost_close = \<lparr>connection = Some conn_close, statusCode = Some (other_code 428), qr = None\<rparr>"

text \<open>
  The specification's Pairing state, in its own words: the session has a Connection
  Handle and a pending pairing image (which "exists only while state = Pairing").
\<close>

definition Pairing :: "state \<Rightarrow> sessionId \<Rightarrow> bool" where
  "Pairing s sessionId =
     ((case connection_of s sessionId of a_value h \<Rightarrow> True | _ \<Rightarrow> False)
      \<and> (case qrCode_of s sessionId of a_value url \<Rightarrow> url \<noteq> [] | _ \<Rightarrow> False))"

text \<open>
  The events that are neither a close event of the engine nor the answer of a successful
  logout.
\<close>

fun keeps_entries :: "event \<Rightarrow> bool" where
  "keeps_entries (engine_update h upd rendered) = (connection upd \<noteq> Some conn_close)"
| "keeps_entries (logout_answered sessionId logged_out) =
     (case logged_out of Inl e \<Rightarrow> True | Inr u \<Rightarrow> False)"
| "keeps_entries e = True"

text \<open>
  Two start requests for one session over HTTP, the second made while the credentials of
  the first are still loading; and two start requests of one Socket.io client, one after
  the other.
\<close>

definition racing :: "event list" where
  "racing = [http_start ''s1'', http_start ''s1'',
             credentials_loaded (start_task ''s1'' None http_caller) (Inr ()),
             credentials_loaded (start_task ''s1'' None http_caller) (Inr ())]"

definition repeated :: "event list" where
  "repeated = [ws_start ''k1'' ''s1'',
               credentials_loaded (start_task ''s1'' (Some ''k1'') (ws_caller ''k1'')) (Inr ()),
               ws_start ''k1'' ''s1'',
               credentials_loaded (start_task ''s1'' (Some ''k1'') (ws_caller ''k1'')) (Inr ())]"

section \<open>The example sessions are reached\<close>

lemmas handler_defs =
  start_session_def call_start_def auth_loaded_def startWhatsAppConnection_def
  connection_of_def messages_of_def qrCode_of_def lookup_def assign_def assign_string_def
  object_names_def init_def

lemma run_started: "run init (start_http ''s1'') = Some started"
  by (simp add: start_http_def started_def handler_defs)

lemma run_pushed: "run init (start_ws ''k1'' ''s1'') = Some pushed"
  by (simp add: start_ws_def pushed_def handler_defs)

lemma run_named: "run init (start_ws ''k1'' ''constructor'') = Some named"
  by (simp add: start_ws_def named_def handler_defs)

lemma run_proto_named: "run init (start_ws ''k1'' ''__proto__'') = Some proto_named"
  by (simp add: start_ws_def proto_named_def handler_defs)

lemma run_paired: "run pushed pairing_events = Some paired"
  by (simp add: pairing_events_def pushed_def paired_def handler_defs connection_update_def
        truthy_def update_qr_def update_rest_def emit_def push_target_def messages_upsert_def
        store_messages_def put_messages_def mixed_def inbound_def own_message_def
        keyless_message_def numbered_def)

section \<open>Starting a session twice\<close>

text \<open>
  Claim C1 says that a session never has more than one socket object, also when it is
  started a second time while the first start is in progress. The code does otherwise
  at two HTTP start requests for \<open>s1\<close> of which the second comes while the credentials
  of the first are loading: both pass the check of the route, two socket objects are made
  for \<open>s1\<close>, and the second replaces the first as the session's entry. Over Socket.io,
  where the handler makes no check, the same happens with two requests made one after
  the other.
\<close>

theorem start_session_twice_two_handles:
  "start_session init ''s1'' = Some (call_start init ''s1'' None http_caller, None)
   \<and> start_session (call_start init ''s1'' None http_caller) ''s1''
        = Some (call_start (call_start init ''s1'' None http_caller) ''s1'' None http_caller, None)
   \<and> run init racing
        = Some (started\<lparr>connections := [''s1'' \<mapsto> 1],
                         socks := [\<lparr>sock_session = ''s1'', sock_socket = None, user = None\<rparr>,
                                   \<lparr>sock_session = ''s1'', sock_socket = None, user = None\<rparr>]\<rparr>)
   \<and> run init repeated
        = Some (pushed\<lparr>connections := [''s1'' \<mapsto> 1],
                        socks := [\<lparr>sock_session = ''s1'', sock_socket = Some ''k1'', user = None\<rparr>,
                                  \<lparr>sock_session = ''s1'', sock_socket = Some ''k1'', user = None\<rparr>],
                        emitted := [(''k1'', session_started_event True None),
                                    (''k1'', session_started_event True None)]\<rparr>)"
  by (simp add: racing_def repeated_def started_def pushed_def handler_defs)

section \<open>Session names that the dictionaries inherit\<close>

text \<open>
  Claim C5 says that the messages route answers 404 and changes nothing when there is
  no entry for the session. On a server where no session was ever started, the request
  for the session name \<open>constructor\<close> passes the check \<open>!connections[sessionId]\<close>,
  because the lookup finds the inherited function: the route answers 200 with the body
  \<open>{}\<close> and stores an empty array under \<open>recentMessages.constructor\<close>.
\<close>

theorem drain_inherited_name:
  "connections init ''constructor'' = None
   \<and> connection_of init ''constructor'' = a_function
   \<and> get_messages init ''constructor''
        = Some (init\<lparr>recentMessages := [''constructor'' \<mapsto> []]\<rparr>, (200, no_field_body))"
  by (simp add: get_messages_def handler_defs)

text \<open>
  Claim C10 says that a session with an entry that never received a message gets the
  empty list \<open>messages: []\<close>. For the session \<open>constructor\<close> of client \<open>k1\<close>, never fed,
  \<open>recentMessages[sessionId] || []\<close> is the inherited function, and the body sent is
  \<open>{}\<close>, without a \<open>messages\<close> field.
\<close>

theorem drain_never_fed_inherited_name:
  "run init (start_ws ''k1'' ''constructor'') = Some named
   \<and> connection_of named ''constructor'' = a_value 0
   \<and> recentMessages named = Map.empty
   \<and> messages_of named ''constructor'' = a_function
   \<and> get_messages named ''constructor''
        = Some (named\<lparr>recentMessages := [''constructor'' \<mapsto> []]\<rparr>, (200, no_field_body))"
  using run_named by (simp add: get_messages_def named_def handler_defs)

text \<open>
  Claim C4 says that sixty inbound messages leave the last fifty of them in the buffer
  of the session. For the session \<open>constructor\<close> of client \<open>k1\<close>, the test
  \<open>!recentMessages[sessionId]\<close> finds the inherited function, no array is created, and
  \<open>push\<close> throws on the first inbound message: nothing is buffered, and the handler
  is left by the error on every one of the sixty payloads as long as the state is this.
\<close>

theorem buffer_inherited_name:
  "run init (start_ws ''k1'' ''constructor'') = Some named
   \<and> messages_of named ''constructor'' = a_function
   \<and> messages_upsert named 0 (single (numbered 0))
        = Some (Inl ''recentMessages[sessionId].push is not a function'')
   \<and> list_all (\<lambda>m. messages_upsert named 0 (single m)
                      = Some (Inl ''recentMessages[sessionId].push is not a function'')) sixty
   \<and> recentMessages named ''constructor'' = None"
  using run_named
  by (simp add: messages_upsert_def store_messages_def single_def inbound_def numbered_def
        sixty_def list_all_iff named_def handler_defs)

text \<open>
  Claim C9 says that the messages which are not buffered are still pushed to the push
  subscriber. For the session \<open>constructor\<close> of client \<open>k1\<close> and a payload that holds an
  own message, an inbound one and one without a key, \<open>push\<close> throws before the handler
  reaches \<open>io.to(socketId).emit\<close>: the payload is not pushed to \<open>k1\<close>. The same payload
  for the session \<open>s1\<close> of client \<open>k1\<close> is pushed.
\<close>

theorem push_inherited_name:
  "run init (start_ws ''k1'' ''constructor'') = Some named
   \<and> messages_upsert named 0 mixed
        = Some (Inl ''recentMessages[sessionId].push is not a function'')
   \<and> messages_upsert pushed 0 mixed
        = Some (Inr (pushed\<lparr>recentMessages := [''s1'' \<mapsto> [numbered 1]],
                            emitted := emitted pushed @ [(''k1'', messages_event mixed)]\<rparr>))"
  using run_named
  by (simp add: messages_upsert_def store_messages_def put_messages_def mixed_def inbound_def
        numbered_def own_message_def keyless_message_def emit_def push_target_def
        named_def pushed_def handler_defs)

text \<open>
  Claim C6 says that a close event after a logout removes the entry of the session. For
  the session \<open>__proto__\<close> of client \<open>k1\<close>, \<open>connections[sessionId] = sock\<close> has made the
  socket the prototype of \<open>connections\<close>; \<open>delete connections[sessionId]\<close> removes
  nothing, and after the close event the lookup still finds the socket: the status route
  reports \<open>connected: true\<close>.
\<close>

theorem close_proto_name:
  "run init (start_ws ''k1'' ''__proto__'') = Some proto_named
   \<and> connection_update proto_named 0 logout_close (Inl [])
        = Inr (proto_named\<lparr>emitted := emitted proto_named
                              @ [(''k1'', connection_close_event False (Some loggedOut))]\<rparr>)
   \<and> connection_of (proto_named\<lparr>emitted := emitted proto_named
                              @ [(''k1'', connection_close_event False (Some loggedOut))]\<rparr>)
        ''__proto__'' = a_value 0
   \<and> getStatus (proto_named\<lparr>emitted := emitted proto_named
                              @ [(''k1'', connection_close_event False (Some loggedOut))]\<rparr>)
        ''__proto__'' = Some (200, status_body True (Some ''unknown''))"
  using run_proto_named
  by (simp add: connection_update_def update_rest_def update_close_def shouldReconnect_def
        emit_def push_target_def logout_close_def truthy_def getStatus_def proto_named_def
        handler_defs)

section \<open>The bounded wait for the pairing image\<close>






section \<open>Sending\<close>

text \<open>
  Claim C7. For a session with a socket and any destination string, the route calls
  \<open>sendMessage\<close> on that socket with the digits of the destination followed by
  \<open>@s.whatsapp.net\<close>, and with the text. It answers success when the engine does,
  and the same fixed failure (500, "Erro ao enviar mensagem") whatever error the engine
  threw. The destination \<open>+1 (555) 123-4567\<close> becomes \<open>15551234567@s.whatsapp.net\<close>.
\<close>

theorem send_message_normalizes:
  "(connections s sessionId = Some h \<longrightarrow>
      send_message s sessionId (Some number) message (Inr ())
        = Some (s\<lparr>calls := calls s @ [sendMessage_call h
                   (filter (\<lambda>c. c \<in> set ''0123456789'') number @ ''@s.whatsapp.net'') message]\<rparr>,
                (200, success_body True))
    \<and> send_message s sessionId (Some number) message (Inl e)
        = Some (s\<lparr>calls := calls s @ [sendMessage_call h
                   (filter (\<lambda>c. c \<in> set ''0123456789'') number @ ''@s.whatsapp.net'') message]\<rparr>,
                (500, success_message_body False msg_erro_enviar)))
   \<and> formattedNumber ''+1 (555) 123-4567'' = ''15551234567@s.whatsapp.net''"
proof -
  have "filter is_digit number = filter (\<lambda>c. c \<in> set ''0123456789'') number"
    by (rule filter_cong) (simp_all add: is_digit_def)
  then show ?thesis
    by (simp add: send_message_def formattedNumber_def is_digit_def connection_of_def lookup_def)
qed

theorem send_message_normalizes_witness:
  "connections started ''s1'' = Some 0
   \<and> send_message started ''s1'' (Some ''+1 (555) 123-4567'') ''hello'' (Inl ''Connection Closed'')
       = Some (started\<lparr>calls := [sendMessage_call 0 ''15551234567@s.whatsapp.net'' ''hello'']\<rparr>,
               (500, success_message_body False ''Erro ao enviar mensagem''))"
  using send_message_normalizes [of started "''s1''" 0 "''+1 (555) 123-4567''" "''hello''"
          "''Connection Closed''"]
  by (simp add: started_def msg_erro_enviar_def)

section \<open>Lookups of ordinary session names\<close>

lemma lookup_own: "props k = Some v \<Longrightarrow> lookup props proto k = a_value v"
  by (simp add: lookup_def)

lemma lookup_plain:
  "\<not> inherited k \<Longrightarrow> lookup props None k = (case props k of None \<Rightarrow> nothing | Some v \<Rightarrow> a_value v)"
  by (simp add: lookup_def inherited_def split: option.splits)

lemma connection_of_plain:
  "\<not> inherited i \<Longrightarrow> connections_proto s = None \<Longrightarrow>
   connection_of s i = (case connections s i of None \<Rightarrow> nothing | Some h \<Rightarrow> a_value h)"
  by (simp add: connection_of_def lookup_plain)

lemma messages_of_plain:
  "\<not> inherited i \<Longrightarrow> recentMessages_proto s = None \<Longrightarrow>
   messages_of s i = (case recentMessages s i of None \<Rightarrow> nothing | Some b \<Rightarrow> a_value b)"
  by (simp add: messages_of_def lookup_plain)

lemma qrCode_of_plain:
  "\<not> inherited i \<Longrightarrow>
   qrCode_of s i = (case qrCodes s i of None \<Rightarrow> nothing | Some q \<Rightarrow> a_value q)"
  by (simp add: qrCode_of_def lookup_plain)

lemma connection_of_own: "connections s i = Some h \<Longrightarrow> connection_of s i = a_value h"
  by (simp add: connection_of_def lookup_own)

section \<open>Disconnecting\<close>

text \<open>
  Claim C3, as stated, fails when the logout throws: the session started over HTTP still
  has its socket after the route has answered 500.
\<close>

theorem disconnect_failed_logout_counterexample:
  "run init (start_http ''s1'') = Some started
   \<and> connection_of started ''s1'' = a_value 0
   \<and> disconnect started ''s1'' (Inl ''Connection Closed'')
        = Some (started\<lparr>calls := [logout_call 0]\<rparr>, (500, error_body ''Connection Closed''))
   \<and> connection_of (started\<lparr>calls := [logout_call 0]\<rparr>) ''s1'' = a_value 0"
  using run_started
  by (simp add: started_def disconnect_def disconnect_begin_def disconnect_resume_def
        connection_of_def lookup_def)

text \<open>
  Claim C3, amended, for a session name that the dictionaries do not inherit and
  dictionaries whose prototypes were not replaced. Without a socket for the session the
  route answers success and changes nothing. With one it calls \<open>logout\<close> on that
  socket. When the logout has succeeded, whatever the state is by then, the lookups of
  the session find no socket, no pairing image and no buffer afterwards, and the route
  answers success. When the logout has failed, the state stays as it is and the route
  answers 500 with the error's message.
\<close>

theorem disconnect_outcomes:
  "\<not> inherited sessionId \<longrightarrow>
   (connections_proto s = None \<and> connections s sessionId = None \<longrightarrow>
      disconnect s sessionId logged_out
        = Some (s, (200, success_message_body True msg_desconectada)))
   \<and> (connections s sessionId = Some h \<longrightarrow>
        disconnect_begin s sessionId = Some (s\<lparr>calls := calls s @ [logout_call h]\<rparr>, None)
      \<and> disconnect s sessionId logged_out
          = Some (disconnect_resume (s\<lparr>calls := calls s @ [logout_call h]\<rparr>) sessionId logged_out))
   \<and> (connections_proto s' = None \<and> recentMessages_proto s' = None \<longrightarrow>
        connection_of (fst (disconnect_resume s' sessionId (Inr ()))) sessionId = nothing
      \<and> qrCode_of (fst (disconnect_resume s' sessionId (Inr ()))) sessionId = nothing
      \<and> messages_of (fst (disconnect_resume s' sessionId (Inr ()))) sessionId = nothing)
   \<and> snd (disconnect_resume s' sessionId (Inr ())) = (200, success_body True)
   \<and> disconnect_resume s' sessionId (Inl e) = (s', (500, error_body e))"
proof (intro impI conjI)
  assume i: "\<not> inherited sessionId"
  show "disconnect s sessionId logged_out
        = Some (s, (200, success_message_body True msg_desconectada))"
    if "connections_proto s = None \<and> connections s sessionId = None"
    using that i by (simp add: disconnect_def disconnect_begin_def connection_of_plain)
  show "disconnect_begin s sessionId = Some (s\<lparr>calls := calls s @ [logout_call h]\<rparr>, None)"
    if "connections s sessionId = Some h"
    using that by (simp add: disconnect_begin_def connection_of_own)
  show "disconnect s sessionId logged_out
          = Some (disconnect_resume (s\<lparr>calls := calls s @ [logout_call h]\<rparr>) sessionId logged_out)"
    if "connections s sessionId = Some h"
    using that by (simp add: disconnect_def disconnect_begin_def connection_of_own)
  show "connection_of (fst (disconnect_resume s' sessionId (Inr ()))) sessionId = nothing"
    if "connections_proto s' = None \<and> recentMessages_proto s' = None"
    using that i by (simp add: disconnect_resume_def connection_of_plain)
  show "qrCode_of (fst (disconnect_resume s' sessionId (Inr ()))) sessionId = nothing"
    if "connections_proto s' = None \<and> recentMessages_proto s' = None"
    using that i by (simp add: disconnect_resume_def qrCode_of_plain)
  show "messages_of (fst (disconnect_resume s' sessionId (Inr ()))) sessionId = nothing"
    if "connections_proto s' = None \<and> recentMessages_proto s' = None"
    using that i by (simp add: disconnect_resume_def messages_of_plain)
  show "snd (disconnect_resume s' sessionId (Inr ())) = (200, success_body True)"
    by (simp add: disconnect_resume_def)
  show "disconnect_resume s' sessionId (Inl e) = (s', (500, error_body e))"
    by (simp add: disconnect_resume_def)
qed

lemma not_inherited_s1: "\<not> inherited ''s1''"
  by (simp add: inherited_def object_names_def)

theorem disconnect_outcomes_witness:
  "\<not> inherited ''s1''
   \<and> connections_proto init = None \<and> connections init ''s1'' = None
   \<and> disconnect init ''s1'' (Inr ()) = Some (init, (200, success_message_body True msg_desconectada))
   \<and> connections paired ''s1'' = Some 0
   \<and> disconnect_begin paired ''s1'' = Some (paired\<lparr>calls := [logout_call 0]\<rparr>, None)
   \<and> connections_proto paired = None \<and> recentMessages_proto paired = None
   \<and> connection_of (fst (disconnect_resume (paired\<lparr>calls := [logout_call 0]\<rparr>) ''s1'' (Inr ()))) ''s1''
        = nothing
   \<and> qrCode_of (fst (disconnect_resume (paired\<lparr>calls := [logout_call 0]\<rparr>) ''s1'' (Inr ()))) ''s1''
        = nothing
   \<and> messages_of (fst (disconnect_resume (paired\<lparr>calls := [logout_call 0]\<rparr>) ''s1'' (Inr ()))) ''s1''
        = nothing
   \<and> disconnect paired ''s1'' (Inr ())
        = Some (disconnect_resume (paired\<lparr>calls := [logout_call 0]\<rparr>) ''s1'' (Inr ()))
   \<and> snd (disconnect_resume (paired\<lparr>calls := [logout_call 0]\<rparr>) ''s1'' (Inr ()))
        = (200, success_body True)"
  using disconnect_outcomes [of "''s1''" init "Inr ()" 0 init "[]"]
        disconnect_outcomes [of "''s1''" paired "Inr ()" 0 "paired\<lparr>calls := [logout_call 0]\<rparr>" "[]"]
        not_inherited_s1
  by (simp add: init_def paired_def)

section \<open>The status route\<close>

lemma emit_fields:
  "connections (emit k ev s) = connections s"
  "connections_proto (emit k ev s) = connections_proto s"
  "qrCodes (emit k ev s) = qrCodes s"
  "recentMessages (emit k ev s) = recentMessages s"
  "recentMessages_proto (emit k ev s) = recentMessages_proto s"
  "socks (emit k ev s) = socks s"
  "pending (emit k ev s) = pending s"
  "calls (emit k ev s) = calls s"
  "emitted (emit k ev s) = emitted s @ map (\<lambda>t. (t, ev)) (push_target k)"
  by (simp_all add: emit_def)

lemma connections_update_rest:
  "connection upd \<noteq> Some conn_close \<Longrightarrow> connections (update_rest s h upd) = connections s"
  by (simp add: update_rest_def update_open_def emit_fields)

lemma connections_connection_update:
  "connection upd \<noteq> Some conn_close \<Longrightarrow> connection_update s h upd r = Inr s1 \<Longrightarrow>
   connections s1 = connections s"
  by (auto simp: connection_update_def connections_update_rest update_qr_def emit_fields
           split: sum.splits if_splits)

lemma connections_store_messages:
  "store_messages s i data = Some (Inr s1) \<Longrightarrow> connections s1 = connections s"
  by (auto simp: store_messages_def put_messages_def Let_def
           split: found.splits option.splits if_splits)

lemma connections_messages_upsert:
  "messages_upsert s h data = Some (Inr s1) \<Longrightarrow> connections s1 = connections s"
  by (auto simp: messages_upsert_def emit_fields connections_store_messages
           split: option.splits sum.splits if_splits)

lemma connections_auth_loaded:
  "fst (auth_loaded s t auth) = Some s1 \<Longrightarrow> connections s i \<noteq> None \<Longrightarrow> connections s1 i \<noteq> None"
  by (auto simp: auth_loaded_def startWhatsAppConnection_def assign_def Let_def
           split: start_task.splits sum.splits caller.splits if_splits option.splits)

lemma connections_get_messages:
  "get_messages s j = Some (s1, r) \<Longrightarrow> connections s1 = connections s"
  by (auto simp: get_messages_def split: found.splits option.splits)

lemma connections_step:
  assumes "keeps_entries e" "step s e = Some s1" "connections s i \<noteq> None"
  shows "connections s1 i \<noteq> None"
proof (cases e)
  case (http_start j)
  with assms show ?thesis
    by (auto simp: start_session_def call_start_def split: found.splits)
next
  case (ws_start k j)
  with assms show ?thesis by (auto simp: call_start_def)
next
  case (credentials_loaded t auth)
  with assms show ?thesis by (auto dest: connections_auth_loaded)
next
  case (engine_update h upd r)
  with assms show ?thesis
    by (auto split: sum.splits dest: connections_connection_update)
next
  case (engine_messages h data)
  with assms show ?thesis
    by (auto split: option.splits sum.splits dest: connections_messages_upsert)
next
  case (engine_sets_user h u)
  with assms show ?thesis by (auto simp: engine_user_def)
next
  case (http_messages j)
  with assms show ?thesis by (auto dest: connections_get_messages)
next
  case (http_disconnect j)
  with assms show ?thesis
    by (auto simp: disconnect_begin_def split: found.splits)
next
  case (logout_answered j r)
  with assms show ?thesis
    by (auto simp: disconnect_resume_def split: sum.splits)
next
  case (http_send j n m r)
  with assms show ?thesis
    by (auto simp: send_message_def split: found.splits option.splits)
qed

lemma connections_run:
  "\<forall>e\<in>set evs. keeps_entries e \<Longrightarrow> run s evs = Some s1 \<Longrightarrow> connections s i \<noteq> None \<Longrightarrow>
   connections s1 i \<noteq> None"
proof (induction evs arbitrary: s)
  case Nil
  then show ?case by simp
next
  case (Cons e evs)
  from Cons.prems(2) obtain s2 where s2: "step s e = Some s2" "run s2 evs = Some s1"
    by (auto split: option.splits)
  with Cons.prems have "connections s2 i \<noteq> None"
    by (intro connections_step [of e s s2 i]) simp_all
  with Cons.prems s2 show ?case
    by (intro Cons.IH [of s2]) simp_all
qed

lemma connected_own:
  "connections s i \<noteq> None \<Longrightarrow> map_option connected (getStatus s i) = Some True"
  by (auto simp: getStatus_def connected_def connection_of_own)

lemma auth_loaded_stores:
  "\<not> inherited i \<Longrightarrow> start_task i k c \<in> set (pending s) \<Longrightarrow>
   fst (auth_loaded s (start_task i k c) (Inr ())) = Some s1 \<Longrightarrow>
   connections s1 i = Some (length (socks s))"
  by (cases c)
     (auto simp: auth_loaded_def startWhatsAppConnection_def assign_def Let_def inherited_def
           split: if_splits)

lemma auth_loaded_follows:
  assumes "connections_proto s = None \<and> start_task i k c \<in> set (pending s)"
  shows "\<exists>s3. fst (auth_loaded s (start_task i k c) (Inr ())) = Some s3"
proof -
  have "\<exists>q. assign (connections s) None i (length (socks s)) = Some q"
    by (simp add: assign_def)
  then obtain props proto where "assign (connections s) None i (length (socks s)) = Some (props, proto)"
    by auto
  with assms show ?thesis
    by (cases c) (simp_all add: auth_loaded_def startWhatsAppConnection_def Let_def)
qed

text \<open>
  Claim C2, as stated, fails: the session \<open>s1\<close> started by client \<open>k1\<close> is in the Pairing
  state (its pairing image is pending and the engine has sent no open event), and the
  status route reports \<open>connected: true\<close>.
\<close>

theorem status_while_pairing_counterexample:
  "run init (start_ws ''k1'' ''s1'' @ pairing_events) = Some paired
   \<and> Pairing paired ''s1''
   \<and> getStatus paired ''s1'' = Some (200, status_body True (Some ''unknown''))"
proof -
  have "run init (start_ws ''k1'' ''s1'' @ pairing_events) = run pushed pairing_events"
    using run_pushed by (simp add: start_ws_def split: option.splits)
  then show ?thesis
    using run_paired
    by (simp add: Pairing_def paired_def getStatus_def connection_of_def qrCode_of_def lookup_def)
qed

text \<open>
  Claim C2, amended, for a session name that the dictionaries do not inherit. While the
  prototype of \<open>connections\<close> is the original one, the status route reports
  \<open>connected: true\<close> exactly when the session has a socket entry. So it reports
  \<open>connected: true\<close> in the Pairing state; and once a call of startWhatsAppConnection
  for the session has stored its socket, it reports \<open>connected: true\<close> after any events
  that are neither a close event nor a successful logout.
\<close>

theorem status_connected_iff_socket:
  "\<not> inherited sessionId \<longrightarrow>
   (connections_proto s = None \<longrightarrow>
      map_option connected (getStatus s sessionId) = Some (connections s sessionId \<noteq> None))
   \<and> (Pairing s sessionId \<longrightarrow> map_option connected (getStatus s sessionId) = Some True)
   \<and> (connections_proto s = None \<and> start_task sessionId k c \<in> set (pending s) \<longrightarrow>
        (\<exists>s3. fst (auth_loaded s (start_task sessionId k c) (Inr ())) = Some s3
              \<and> map_option connected (getStatus s3 sessionId) = Some True))
   \<and> (start_task sessionId k c \<in> set (pending s)
        \<and> fst (auth_loaded s (start_task sessionId k c) (Inr ())) = Some s1
        \<and> (\<forall>e\<in>set evs. keeps_entries e) \<and> run s1 evs = Some s2 \<longrightarrow>
      map_option connected (getStatus s2 sessionId) = Some True)"
proof (intro impI conjI)
  assume i: "\<not> inherited sessionId"
  show "map_option connected (getStatus s sessionId) = Some (connections s sessionId \<noteq> None)"
    if "connections_proto s = None"
    using that i
    by (auto simp: getStatus_def connected_def connection_of_plain split: option.splits)
  show "map_option connected (getStatus s sessionId) = Some True"
    if "Pairing s sessionId"
    using that
    by (auto simp: Pairing_def getStatus_def connected_def split: found.splits)
  show "\<exists>s3. fst (auth_loaded s (start_task sessionId k c) (Inr ())) = Some s3
              \<and> map_option connected (getStatus s3 sessionId) = Some True"
    if a: "connections_proto s = None \<and> start_task sessionId k c \<in> set (pending s)"
  proof -
    from a obtain s3 where s3: "fst (auth_loaded s (start_task sessionId k c) (Inr ())) = Some s3"
      using auth_loaded_follows [of s sessionId k c] by blast
    with a i have "connections s3 sessionId \<noteq> None"
      using auth_loaded_stores [of sessionId k c s s3] by simp
    then have "map_option connected (getStatus s3 sessionId) = Some True"
      by (rule connected_own)
    with s3 show ?thesis by blast
  qed
  show "map_option connected (getStatus s2 sessionId) = Some True"
    if a: "start_task sessionId k c \<in> set (pending s)
        \<and> fst (auth_loaded s (start_task sessionId k c) (Inr ())) = Some s1
        \<and> (\<forall>e\<in>set evs. keeps_entries e) \<and> run s1 evs = Some s2"
  proof -
    from a i have "connections s1 sessionId \<noteq> None"
      using auth_loaded_stores [of sessionId k c s s1] by simp
    with a have "connections s2 sessionId \<noteq> None"
      by (intro connections_run [of evs s1 s2 sessionId]) simp_all
    then show ?thesis by (rule connected_own)
  qed
qed

theorem status_connected_iff_socket_witness:
  "\<not> inherited ''s1''
   \<and> connections_proto init = None
   \<and> map_option connected (getStatus init ''s1'') = Some False
   \<and> Pairing paired ''s1''
   \<and> map_option connected (getStatus paired ''s1'') = Some True
   \<and> start_task ''s1'' (Some ''k1'') (ws_caller ''k1'')
        \<in> set (pending (call_start init ''s1'' (Some ''k1'') (ws_caller ''k1'')))
   \<and> fst (auth_loaded (call_start init ''s1'' (Some ''k1'') (ws_caller ''k1''))
             (start_task ''s1'' (Some ''k1'') (ws_caller ''k1'')) (Inr ())) = Some pushed
   \<and> connections_proto (call_start init ''s1'' (Some ''k1'') (ws_caller ''k1'')) = None
   \<and> map_option connected (getStatus pushed ''s1'') = Some True
   \<and> list_all keeps_entries pairing_events
   \<and> run pushed pairing_events = Some paired"
  using status_connected_iff_socket
          [of "''s1''" init "Some ''k1''" "ws_caller ''k1''" pushed "[]" pushed]
        status_connected_iff_socket
          [of "''s1''" paired "Some ''k1''" "ws_caller ''k1''" pushed pairing_events paired]
        status_connected_iff_socket
          [of "''s1''" "call_start init ''s1'' (Some ''k1'') (ws_caller ''k1'')"
              "Some ''k1''" "ws_caller ''k1''" pushed pairing_events paired]
        not_inherited_s1 run_paired
  by (simp add: init_def pushed_def paired_def pairing_events_def Pairing_def handler_defs)

section \<open>The message buffer of ordinary session names\<close>

lemma slice_last_short: "length xs \<le> n \<Longrightarrow> slice_last n xs = xs"
  by (simp add: slice_last_def)

lemma length_slice_last: "length (slice_last n xs) \<le> n"
  by (simp add: slice_last_def)

lemma set_slice_last: "set (slice_last n xs) \<subseteq> set xs"
  by (simp add: slice_last_def set_drop_subset)

lemma slice_last_append: "slice_last n (slice_last n xs @ ys) = slice_last n (xs @ ys)"
proof (cases "length xs \<le> n")
  case True
  then show ?thesis by (simp add: slice_last_def)
next
  case False
  then have "length xs + length ys - (length xs - n + n) + (length xs - n)
               = length xs + length ys - n" by arith
  with False show ?thesis by (simp add: slice_last_def)
qed

lemma trim_slice: "trim b = slice_last 50 b"
  by (simp add: trim_def slice_last_short)

lemma length_trim: "length (trim b) \<le> 50"
  by (simp add: trim_slice length_slice_last)

lemma set_trim: "set (trim b) \<subseteq> set b"
  by (simp add: trim_slice set_slice_last)

lemma set_inbound_of: "\<forall>m\<in>set (inbound_of data). inbound m"
  by (auto simp: inbound_of_def split: option.splits)

lemma arrays_delete: "arrays (s\<lparr>recentMessages := (recentMessages s)(i := None)\<rparr>) \<subseteq> arrays s"
  by (auto simp: arrays_def ran_def split: if_splits)

lemma arrays_own: "arrays (s\<lparr>recentMessages := (recentMessages s)(i \<mapsto> b)\<rparr>) \<subseteq> insert b (arrays s)"
  by (auto simp: arrays_def ran_def split: if_splits)

lemma arrays_proto: "arrays (s\<lparr>recentMessages_proto := Some b\<rparr>) \<subseteq> insert b (arrays s)"
  by (auto simp: arrays_def)

lemma arrays_put: "arrays (put_messages s i b) \<subseteq> insert b (arrays s)"
  using arrays_own [of s i b] arrays_proto [where s = s and b = b]
  by (simp add: put_messages_def)

lemma messages_of_arrays: "messages_of s i = a_value b \<Longrightarrow> b \<in> arrays s"
  by (auto simp: messages_of_def lookup_def arrays_def ran_def split: option.splits if_splits)

text \<open>
  What the first part of the upsert handler leaves: every array is an old one, the empty
  one, or an old or empty one with the inbound messages of the payload pushed and trimmed.
\<close>

lemma store_messages_cases:
  assumes "store_messages s i data = Some (Inr s1)"
  shows "s1 = (if messages_of s i = nothing
               then s\<lparr>recentMessages := (recentMessages s)(i \<mapsto> [])\<rparr> else s)
         \<or> (\<exists>b. messages_of (if messages_of s i = nothing
                               then s\<lparr>recentMessages := (recentMessages s)(i \<mapsto> [])\<rparr> else s) i
                    = a_value b
                \<and> s1 = put_messages (if messages_of s i = nothing
                               then s\<lparr>recentMessages := (recentMessages s)(i \<mapsto> [])\<rparr> else s) i
                           (trim (b @ inbound_of data)))"
proof -
  let ?s0 = "if messages_of s i = nothing
             then s\<lparr>recentMessages := (recentMessages s)(i \<mapsto> [])\<rparr> else s"
  have known: "messages_of s i \<noteq> unknown"
    using assms by (auto simp: store_messages_def)
  then have eq: "store_messages s i data =
     (case messages data of
        None \<Rightarrow> Some (Inr ?s0)
      | Some ms \<Rightarrow>
          if length (filter inbound ms) > 0
          then (case messages_of ?s0 i of
                  a_value b \<Rightarrow> Some (Inr (put_messages ?s0 i (trim (b @ filter inbound ms))))
                | unknown \<Rightarrow> None
                | _ \<Rightarrow> Some (Inl ''recentMessages[sessionId].push is not a function''))
          else Some (Inr ?s0))"
    by (cases "messages_of s i")
       (simp_all add: store_messages_def Let_def trim_def
          cong: option.case_cong found.case_cong if_cong)
  show ?thesis
  proof (cases "messages data")
    case None
    with assms eq show ?thesis by simp
  next
    case (Some ms)
    show ?thesis
    proof (cases "length (filter inbound ms) > 0")
      case False
      with assms eq Some show ?thesis by simp
    next
      case True
      with assms eq Some have
        "(case messages_of ?s0 i of
            a_value b \<Rightarrow> Some (Inr (put_messages ?s0 i (trim (b @ filter inbound ms))))
          | unknown \<Rightarrow> None
          | _ \<Rightarrow> Some (Inl ''recentMessages[sessionId].push is not a function''))
         = Some (Inr s1)" by simp
      then obtain b where "messages_of ?s0 i = a_value b"
        "s1 = put_messages ?s0 i (trim (b @ filter inbound ms))"
        by (cases "messages_of ?s0 i") simp_all
      with Some show ?thesis by (auto simp: inbound_of_def)
    qed
  qed
qed

lemma arrays_store_messages:
  assumes "store_messages s i data = Some (Inr s1)" "b1 \<in> arrays s1"
  shows "b1 \<in> arrays s \<or> b1 = [] \<or> (\<exists>b. (b \<in> arrays s \<or> b = []) \<and> b1 = trim (b @ inbound_of data))"
proof -
  let ?s0 = "if messages_of s i = nothing
             then s\<lparr>recentMessages := (recentMessages s)(i \<mapsto> [])\<rparr> else s"
  have s0: "arrays ?s0 \<subseteq> insert [] (arrays s)"
    using arrays_own [of s i "[]"] by auto
  from store_messages_cases [OF assms(1)]
  consider "s1 = ?s0"
    | b where "messages_of ?s0 i = a_value b" "s1 = put_messages ?s0 i (trim (b @ inbound_of data))"
    by blast
  then show ?thesis
  proof cases
    case 1
    with assms(2) s0 show ?thesis by auto
  next
    case 2
    from 2(1) have "b \<in> arrays ?s0" by (rule messages_of_arrays)
    with s0 have b: "b \<in> arrays s \<or> b = []" by auto
    from assms(2) 2(2) arrays_put [of ?s0 i "trim (b @ inbound_of data)"]
    have "b1 = trim (b @ inbound_of data) \<or> b1 \<in> arrays ?s0" by auto
    with b s0 show ?thesis by auto
  qed
qed

lemma emit_arrays: "arrays (emit k ev s) = arrays s"
  by (simp add: arrays_def emit_def)

lemma arrays_messages_upsert:
  assumes "messages_upsert s h data = Some (Inr s1)" "b1 \<in> arrays s1"
  shows "b1 \<in> arrays s \<or> b1 = [] \<or> (\<exists>b. (b \<in> arrays s \<or> b = []) \<and> b1 = trim (b @ inbound_of data))"
proof (cases "h < length (socks s)")
  case False
  with assms show ?thesis by (simp add: messages_upsert_def)
next
  case True
  with assms(1) obtain s0 where
    s0: "store_messages s (sock_session (socks s ! h)) data = Some (Inr s0)"
        "s1 = emit (sock_socket (socks s ! h)) (messages_event data) s0"
    by (auto simp: messages_upsert_def split: option.splits sum.splits)
  with assms(2) have "b1 \<in> arrays s0" by (simp add: emit_arrays)
  with s0(1) show ?thesis by (rule arrays_store_messages)
qed

lemma arrays_update_close: "arrays (update_close s k code) \<subseteq> arrays s"
  using arrays_delete [of s "sock_session k"]
  by (auto simp: update_close_def arrays_def emit_def call_start_def Let_def)

lemma arrays_update_rest: "arrays (update_rest s h upd) \<subseteq> arrays s"
proof -
  have "arrays (update_open s k) = arrays s" for k
    by (simp add: update_open_def arrays_def emit_def)
  then show ?thesis
    using arrays_update_close [of s] arrays_update_close [of "update_open s (socks s ! h)"]
    by (auto simp: update_rest_def Let_def)
qed

lemma arrays_update_qr: "arrays (update_qr s k u) = arrays s"
  by (simp add: update_qr_def arrays_def emit_def)

lemma arrays_connection_update:
  assumes "connection_update s h upd r = Inr s1"
  shows "arrays s1 \<subseteq> arrays s"
proof (cases "h < length (socks s) \<and> truthy (qr upd)")
  case False
  with assms arrays_update_rest [of s h upd] show ?thesis
    by (auto simp: connection_update_def split: if_splits)
next
  case True
  with assms obtain u where u: "r = Inr u" "s1 = update_rest (update_qr s (socks s ! h) u) h upd"
    by (cases r) (auto simp: connection_update_def)
  from arrays_update_rest [of "update_qr s (socks s ! h) u" h upd] u
  show ?thesis by (simp add: arrays_update_qr)
qed

lemma arrays_auth_loaded: "fst (auth_loaded s t auth) = Some s1 \<Longrightarrow> arrays s1 = arrays s"
  by (auto simp: auth_loaded_def startWhatsAppConnection_def assign_def arrays_def Let_def
           split: start_task.splits sum.splits caller.splits if_splits option.splits)

lemma arrays_assign:
  "assign (recentMessages s) (recentMessages_proto s) i v = Some (props, proto) \<Longrightarrow>
   arrays (s\<lparr>recentMessages := props, recentMessages_proto := proto\<rparr>) \<subseteq> insert v (arrays s)"
  by (auto simp: assign_def arrays_def ran_def split: if_splits)

lemma get_messages_state:
  "get_messages s i = Some (s1, r) \<Longrightarrow>
   s1 = s \<or> (\<exists>props proto. assign (recentMessages s) (recentMessages_proto s) i [] = Some (props, proto)
                 \<and> s1 = s\<lparr>recentMessages := props, recentMessages_proto := proto\<rparr>)"
  by (cases "connection_of s i"; cases "messages_of s i";
      cases "assign (recentMessages s) (recentMessages_proto s) i []")
     (auto simp: get_messages_def)

lemma arrays_get_messages: "get_messages s i = Some (s1, r) \<Longrightarrow> arrays s1 \<subseteq> insert [] (arrays s)"
  using get_messages_state [of s i s1 r] arrays_assign [of s i "[]"] by blast

lemma arrays_step:
  assumes "step s e = Some s1" "b1 \<in> arrays s1"
  shows "b1 \<in> arrays s \<or> b1 = []
         \<or> (\<exists>b new. (b \<in> arrays s \<or> b = []) \<and> (\<forall>m\<in>set new. inbound m) \<and> b1 = trim (b @ new))"
proof (cases e)
  case (http_start j)
  with assms show ?thesis
    by (auto simp: start_session_def call_start_def arrays_def split: found.splits)
next
  case (ws_start k j)
  with assms show ?thesis by (auto simp: call_start_def arrays_def)
next
  case (credentials_loaded t auth)
  with assms show ?thesis by (auto dest: arrays_auth_loaded)
next
  case (engine_update h upd r)
  with assms show ?thesis
    by (auto split: sum.splits dest: arrays_connection_update)
next
  case (engine_messages h data)
  with assms have "messages_upsert s h data = Some (Inr s1)"
    by (auto split: option.splits sum.splits)
  from arrays_messages_upsert [OF this assms(2)] set_inbound_of [of data]
  show ?thesis by blast
next
  case (engine_sets_user h u)
  with assms have "arrays s1 = arrays s"
    by (auto simp: engine_user_def arrays_def split: if_splits)
  with assms show ?thesis by simp
next
  case (http_messages j)
  with assms show ?thesis by (auto dest: arrays_get_messages)
next
  case (http_disconnect j)
  with assms show ?thesis
    by (auto simp: disconnect_begin_def arrays_def split: found.splits)
next
  case (logout_answered j r)
  with assms arrays_delete [of s j] show ?thesis
    by (auto simp: disconnect_resume_def arrays_def split: sum.splits)
next
  case (http_send j n m r)
  with assms show ?thesis
    by (auto simp: send_message_def arrays_def split: found.splits option.splits)
qed

lemma arrays_run_bound:
  "run s evs = Some s1 \<Longrightarrow> \<forall>b\<in>arrays s. length b \<le> 50 \<Longrightarrow> \<forall>b\<in>arrays s1. length b \<le> 50"
proof (induction evs arbitrary: s)
  case Nil
  then show ?case by simp
next
  case (Cons e evs)
  from Cons.prems(1) obtain s2 where s2: "step s e = Some s2" "run s2 evs = Some s1"
    by (auto split: option.splits)
  have "\<forall>b\<in>arrays s2. length b \<le> 50"
  proof
    fix b assume "b \<in> arrays s2"
    from arrays_step [OF s2(1) this] Cons.prems(2) show "length b \<le> 50"
      by (auto simp: length_trim)
  qed
  with s2(2) show ?case by (rule Cons.IH)
qed

lemma arrays_run_inbound:
  "run s evs = Some s1 \<Longrightarrow> \<forall>b\<in>arrays s. \<forall>m\<in>set b. inbound m \<Longrightarrow>
   \<forall>b\<in>arrays s1. \<forall>m\<in>set b. inbound m"
proof (induction evs arbitrary: s)
  case Nil
  then show ?case by simp
next
  case (Cons e evs)
  from Cons.prems(1) obtain s2 where s2: "step s e = Some s2" "run s2 evs = Some s1"
    by (auto split: option.splits)
  have "\<forall>b\<in>arrays s2. \<forall>m\<in>set b. inbound m"
  proof
    fix b assume "b \<in> arrays s2"
    from arrays_step [OF s2(1) this] Cons.prems(2) set_trim
    show "\<forall>m\<in>set b. inbound m" by fastforce
  qed
  with s2(2) show ?case by (rule Cons.IH)
qed

lemma arrays_init: "arrays init = {}"
  by (simp add: arrays_def init_def)

lemma buffer_arrays: "own_buffer s i = [] \<or> own_buffer s i \<in> arrays s"
  by (auto simp: own_buffer_def arrays_def ran_def split: option.splits)

lemma store_messages_plain:
  assumes "\<not> inherited i" "recentMessages_proto s = None"
  shows "\<exists>s1. store_messages s i data = Some (Inr s1)
              \<and> s1 = (if recentMessages s i = None \<or> inbound_of data \<noteq> []
                      then s\<lparr>recentMessages := (recentMessages s)(i \<mapsto>
                               (if inbound_of data = [] then own_buffer s i
                                else trim (own_buffer s i @ inbound_of data)))\<rparr>
                      else s)"
proof (cases "recentMessages s i")
  case None
  with assms have m: "messages_of s i = nothing" by (simp add: messages_of_plain)
  have m1: "messages_of (s\<lparr>recentMessages := (recentMessages s)(i \<mapsto> [])\<rparr>) i = a_value []"
    by (simp add: messages_of_def lookup_def)
  show ?thesis
    using None m m1
    by (cases "messages data")
       (auto simp: store_messages_def Let_def put_messages_def own_buffer_def inbound_of_def trim_def)
next
  case (Some b)
  with assms have m: "messages_of s i = a_value b" by (simp add: messages_of_plain)
  show ?thesis
    using Some m
    by (cases "messages data")
       (auto simp: store_messages_def Let_def put_messages_def own_buffer_def inbound_of_def trim_def
             intro!: state.equality)
qed

lemma messages_upsert_plain:
  assumes "h < length (socks s)" "\<not> inherited (sock_session (socks s ! h))"
          "recentMessages_proto s = None" "length (own_buffer s (sock_session (socks s ! h))) \<le> 50"
  shows "\<exists>s1. messages_upsert s h data = Some (Inr s1)
              \<and> socks s1 = socks s \<and> recentMessages_proto s1 = None
              \<and> own_buffer s1 (sock_session (socks s ! h))
                  = slice_last 50 (own_buffer s (sock_session (socks s ! h)) @ inbound_of data)
              \<and> emitted s1 = emitted s @ map (\<lambda>k. (k, messages_event data))
                                          (push_target (sock_socket (socks s ! h)))"
proof -
  let ?i = "sock_session (socks s ! h)"
  from store_messages_plain [OF assms(2,3), of data] obtain s0 where
    s0: "store_messages s ?i data = Some (Inr s0)"
        "s0 = (if recentMessages s ?i = None \<or> inbound_of data \<noteq> []
               then s\<lparr>recentMessages := (recentMessages s)(?i \<mapsto>
                        (if inbound_of data = [] then own_buffer s ?i
                         else trim (own_buffer s ?i @ inbound_of data)))\<rparr>
               else s)"
    by blast
  have b: "own_buffer s0 ?i = slice_last 50 (own_buffer s ?i @ inbound_of data)"
    using assms(4) by (simp add: s0(2) own_buffer_def trim_slice slice_last_short)
  have f: "socks s0 = socks s" "recentMessages_proto s0 = recentMessages_proto s"
          "emitted s0 = emitted s"
    by (simp_all add: s0(2))
  show ?thesis
    using assms(1,3) s0(1) b f
    by (simp add: messages_upsert_def emit_def own_buffer_def)
qed

lemma buffer_feed:
  assumes "h < length (socks s)" "sock_session (socks s ! h) = i" "\<not> inherited i"
          "recentMessages_proto s = None" "length (own_buffer s i) \<le> 50"
  shows "\<exists>s1. run s (map (engine_messages h) ds) = Some s1
              \<and> own_buffer s1 i = slice_last 50 (own_buffer s i @ concat (map inbound_of ds))"
  using assms
proof (induction ds arbitrary: s)
  case Nil
  then show ?case by (simp add: slice_last_short)
next
  case (Cons d ds)
  from messages_upsert_plain [of h s d] Cons.prems obtain s0 where
    s0: "messages_upsert s h d = Some (Inr s0)" "socks s0 = socks s"
        "recentMessages_proto s0 = None"
        "own_buffer s0 i = slice_last 50 (own_buffer s i @ inbound_of d)"
    by auto
  have "\<exists>s1. run s0 (map (engine_messages h) ds) = Some s1
              \<and> own_buffer s1 i = slice_last 50 (own_buffer s0 i @ concat (map inbound_of ds))"
    using Cons.prems s0 by (intro Cons.IH) (simp_all add: length_slice_last)
  then show ?case
    using s0 by (simp add: slice_last_append)
qed

lemma inbound_of_single: "inbound_of (single m) = (if inbound m then [m] else [])"
  by (simp add: inbound_of_def single_def)

lemma concat_inbound_single:
  "\<forall>m\<in>set ms. inbound m \<Longrightarrow> concat (map inbound_of (map single ms)) = ms"
  by (induction ms) (simp_all add: inbound_of_single)

lemma inbound_iff: "inbound m = (\<exists>k. key m = Some k \<and> fromMe k \<noteq> Some True)"
  by (simp add: inbound_def split: option.splits)

text \<open>
  For session names that the dictionaries do not inherit, the buffer behaves as the
  specification says. In every state that a run from the start reaches, no array of
  \<open>recentMessages\<close> holds more than 50 messages, and every message in one has a key
  whose \<open>fromMe\<close> flag is not true. Payloads delivered to a socket of such a session
  leave the last 50 of the old buffer followed by their inbound messages, in arrival
  order; so 60 inbound messages delivered one by one to an empty buffer leave the last
  50 of them, oldest first. Each such payload is pushed whole to the socket identifier of
  the socket.
\<close>

theorem ordinary_buffer_bounded_fifo:
  "(run init evs = Some s0 \<longrightarrow>
      (\<forall>b\<in>arrays s0. length b \<le> 50
                    \<and> (\<forall>m\<in>set b. \<exists>k. key m = Some k \<and> fromMe k \<noteq> Some True)))
   \<and> (h < length (socks s) \<and> sock_session (socks s ! h) = sessionId \<and> \<not> inherited sessionId
        \<and> recentMessages_proto s = None \<and> length (own_buffer s sessionId) \<le> 50 \<longrightarrow>
      (\<exists>s1. run s (map (engine_messages h) ds) = Some s1
            \<and> own_buffer s1 sessionId = slice_last 50 (own_buffer s sessionId @ concat (map inbound_of ds)))
      \<and> (\<exists>s1. messages_upsert s h data = Some (Inr s1)
            \<and> emitted s1 = emitted s @ map (\<lambda>k. (k, messages_event data))
                                        (push_target (sock_socket (socks s ! h)))))
   \<and> (h < length (socks s) \<and> sock_session (socks s ! h) = sessionId \<and> \<not> inherited sessionId
        \<and> recentMessages_proto s = None \<and> own_buffer s sessionId = []
        \<and> length ms = 60 \<and> (\<forall>m\<in>set ms. inbound m) \<longrightarrow>
      (\<exists>s1. run s (map (engine_messages h) (map single ms)) = Some s1
            \<and> own_buffer s1 sessionId = drop 10 ms))"
proof (intro conjI impI)
  assume r: "run init evs = Some s0"
  from arrays_run_bound [OF r] arrays_run_inbound [OF r]
  show "\<forall>b\<in>arrays s0. length b \<le> 50
                    \<and> (\<forall>m\<in>set b. \<exists>k. key m = Some k \<and> fromMe k \<noteq> Some True)"
    by (simp add: arrays_init inbound_iff)
next
  assume a: "h < length (socks s) \<and> sock_session (socks s ! h) = sessionId
        \<and> \<not> inherited sessionId
        \<and> recentMessages_proto s = None \<and> length (own_buffer s sessionId) \<le> 50"
  then show "\<exists>s1. run s (map (engine_messages h) ds) = Some s1
            \<and> own_buffer s1 sessionId = slice_last 50 (own_buffer s sessionId @ concat (map inbound_of ds))"
    by (intro buffer_feed) simp_all
  from a messages_upsert_plain [of h s data]
  show "\<exists>s1. messages_upsert s h data = Some (Inr s1)
            \<and> emitted s1 = emitted s @ map (\<lambda>k. (k, messages_event data))
                                        (push_target (sock_socket (socks s ! h)))"
    by auto
next
  assume a: "h < length (socks s) \<and> sock_session (socks s ! h) = sessionId
        \<and> \<not> inherited sessionId
        \<and> recentMessages_proto s = None \<and> own_buffer s sessionId = []
        \<and> length ms = 60 \<and> (\<forall>m\<in>set ms. inbound m)"
  then have "\<exists>s1. run s (map (engine_messages h) (map single ms)) = Some s1
            \<and> own_buffer s1 sessionId
                = slice_last 50 (own_buffer s sessionId @ concat (map inbound_of (map single ms)))"
    by (intro buffer_feed) simp_all
  moreover have "concat (map inbound_of (map single ms)) = ms"
    using a by (intro concat_inbound_single) simp
  ultimately show "\<exists>s1. run s (map (engine_messages h) (map single ms)) = Some s1
            \<and> own_buffer s1 sessionId = drop 10 ms"
    using a by (simp only: slice_last_def append_Nil) simp
qed

text \<open>
  For session names that the dictionaries do not inherit and prototypes that were not
  replaced, the messages route behaves as the specification says: 404 and an unchanged
  state without a socket entry; with one, the whole buffer (the empty list when nothing
  was buffered), an empty buffer afterwards, and the empty list on a second call. The
  entries of \<open>connections\<close> stay as they are.
\<close>

theorem ordinary_drain_messages:
  "\<not> inherited sessionId \<and> connections_proto s = None \<and> recentMessages_proto s = None \<longrightarrow>
   (connections s sessionId = None \<longrightarrow>
      get_messages s sessionId = Some (s, (404, error_body msg_nao_encontrada)))
   \<and> (connections s sessionId \<noteq> None \<longrightarrow>
        get_messages s sessionId
          = Some (s\<lparr>recentMessages := (recentMessages s)(sessionId \<mapsto> [])\<rparr>,
                  (200, messages_body (own_buffer s sessionId)))
      \<and> get_messages (s\<lparr>recentMessages := (recentMessages s)(sessionId \<mapsto> [])\<rparr>) sessionId
          = Some (s\<lparr>recentMessages := (recentMessages s)(sessionId \<mapsto> [])\<rparr>,
                  (200, messages_body [])))"
  by (auto simp: get_messages_def connection_of_plain messages_of_plain assign_def own_buffer_def
        inherited_def split: option.splits)

text \<open>
  For session names that the dictionaries do not inherit and prototypes that were not
  replaced, a close event behaves as the specification says. After a logout the lookups of the
  session find no socket, no pairing image and no buffer, and \<open>connection-close\<close> with
  \<open>shouldReconnect = false\<close> is pushed to the socket identifier of the socket. With any
  other cause the handler itself calls startWhatsAppConnection, and once the credentials
  of that call are loaded a new socket object is the entry of the session.
\<close>

theorem ordinary_close_event:
  "h < length (socks s) \<and> sock_session (socks s ! h) = sessionId \<and> \<not> inherited sessionId
     \<and> connections_proto s = None \<and> recentMessages_proto s = None
     \<and> connection upd = Some conn_close \<and> \<not> truthy (qr upd) \<longrightarrow>
   (statusCode upd = Some loggedOut \<longrightarrow>
      (\<exists>s1. connection_update s h upd r = Inr s1
            \<and> connection_of s1 sessionId = nothing
            \<and> qrCode_of s1 sessionId = nothing
            \<and> messages_of s1 sessionId = nothing
            \<and> emitted s1
                = emitted s @ map (\<lambda>t. (t, connection_close_event False (Some loggedOut)))
                                (push_target (sock_socket (socks s ! h)))))
   \<and> (statusCode upd \<noteq> Some loggedOut \<longrightarrow>
      (\<exists>s1 s2. connection_update s h upd r = Inr s1
            \<and> pending s1
                = pending s @ [start_task sessionId (sock_socket (socks s ! h)) reconnect_caller]
            \<and> emitted s1
                = emitted s @ map (\<lambda>t. (t, connection_close_event True (statusCode upd)))
                                (push_target (sock_socket (socks s ! h)))
            \<and> run s [engine_update h upd r,
                      credentials_loaded
                        (start_task sessionId (sock_socket (socks s ! h)) reconnect_caller)
                        (Inr ())] = Some s2
            \<and> socks s2 = socks s @ [\<lparr>sock_session = sessionId,
                                      sock_socket = sock_socket (socks s ! h), user = None\<rparr>]
            \<and> connection_of s2 sessionId = a_value (length (socks s))))"
proof (intro impI conjI)
  assume a: "h < length (socks s) \<and> sock_session (socks s ! h) = sessionId
     \<and> \<not> inherited sessionId
     \<and> connections_proto s = None \<and> recentMessages_proto s = None
     \<and> connection upd = Some conn_close \<and> \<not> truthy (qr upd)"
  let ?k = "socks s ! h"
  have cu: "connection_update s h upd r = Inr (update_close s ?k (statusCode upd))"
    using a by (simp add: connection_update_def update_rest_def)
  show "\<exists>s1. connection_update s h upd r = Inr s1
            \<and> connection_of s1 sessionId = nothing
            \<and> qrCode_of s1 sessionId = nothing
            \<and> messages_of s1 sessionId = nothing
            \<and> emitted s1
                = emitted s @ map (\<lambda>t. (t, connection_close_event False (Some loggedOut)))
                                (push_target (sock_socket (socks s ! h)))"
    if "statusCode upd = Some loggedOut"
    using a that
    by (simp add: cu update_close_def shouldReconnect_def emit_def connection_of_plain
          qrCode_of_plain messages_of_plain)
  show "\<exists>s1 s2. connection_update s h upd r = Inr s1
            \<and> pending s1
                = pending s @ [start_task sessionId (sock_socket (socks s ! h)) reconnect_caller]
            \<and> emitted s1
                = emitted s @ map (\<lambda>t. (t, connection_close_event True (statusCode upd)))
                                (push_target (sock_socket (socks s ! h)))
            \<and> run s [engine_update h upd r,
                      credentials_loaded
                        (start_task sessionId (sock_socket (socks s ! h)) reconnect_caller)
                        (Inr ())] = Some s2
            \<and> socks s2 = socks s @ [\<lparr>sock_session = sessionId,
                                      sock_socket = sock_socket (socks s ! h), user = None\<rparr>]
            \<and> connection_of s2 sessionId = a_value (length (socks s))"
    if code: "statusCode upd \<noteq> Some loggedOut"
  proof -
    let ?t = "start_task sessionId (sock_socket ?k) reconnect_caller"
    let ?s1 = "update_close s ?k (statusCode upd)"
    have s1: "?s1 = s\<lparr>emitted := emitted s @ map (\<lambda>t. (t, connection_close_event True (statusCode upd)))
                                   (push_target (sock_socket ?k)),
                     pending := pending s @ [?t]\<rparr>"
      using a code by (simp add: update_close_def shouldReconnect_def emit_def call_start_def)
    have "\<exists>s2. fst (auth_loaded ?s1 ?t (Inr ())) = Some s2
            \<and> socks s2 = socks s @ [\<lparr>sock_session = sessionId,
                                      sock_socket = sock_socket ?k, user = None\<rparr>]
            \<and> connection_of s2 sessionId = a_value (length (socks s))"
      using a
      by (simp add: s1 auth_loaded_def startWhatsAppConnection_def assign_def Let_def
            inherited_def connection_of_def lookup_def)
    then show ?thesis
      using cu s1 by auto
  qed
qed

section \<open>Stored sockets exist\<close>

text \<open>
  Every socket that \<open>connections\<close> holds, as an own property or as its prototype, is the
  index of a socket object that exists, in every state that a run from the start
  reaches: the status route never reads a socket that was not made.
\<close>

lemma valid_auth_loaded:
  assumes "fst (auth_loaded s t auth) = Some s1"
          "(\<forall>i h. connections s i = Some h \<longrightarrow> h < length (socks s)) \<and> (\<forall>h. connections_proto s = Some h \<longrightarrow> h < length (socks s))"
  shows "(\<forall>i h. connections s1 i = Some h \<longrightarrow> h < length (socks s1)) \<and> (\<forall>h. connections_proto s1 = Some h \<longrightarrow> h < length (socks s1))"
  using assms
  by (auto simp: auth_loaded_def startWhatsAppConnection_def assign_def Let_def less_Suc_eq
           split: start_task.splits sum.splits caller.splits if_splits option.splits)

lemma fields_store_messages:
  "store_messages s i data = Some (Inr s1) \<Longrightarrow>
   connections s1 = connections s \<and> connections_proto s1 = connections_proto s \<and> socks s1 = socks s"
  using store_messages_cases [of s i data s1]
  by (auto simp: put_messages_def split: if_splits)

lemma fields_messages_upsert:
  "messages_upsert s h data = Some (Inr s1) \<Longrightarrow>
   connections s1 = connections s \<and> connections_proto s1 = connections_proto s \<and> socks s1 = socks s"
  by (auto simp: messages_upsert_def emit_fields dest: fields_store_messages
           split: option.splits sum.splits if_splits)

lemma fields_update_rest:
  "connections_proto (update_rest s h upd) = connections_proto s
   \<and> socks (update_rest s h upd) = socks s
   \<and> (\<forall>i k. connections (update_rest s h upd) i = Some k \<longrightarrow> connections s i = Some k)"
  by (auto simp: update_rest_def update_open_def update_close_def emit_def call_start_def Let_def
           split: if_splits)

lemma fields_connection_update:
  assumes "connection_update s h upd r = Inr s1"
  shows "connections_proto s1 = connections_proto s \<and> socks s1 = socks s
         \<and> (\<forall>i k. connections s1 i = Some k \<longrightarrow> connections s i = Some k)"
proof (cases "h < length (socks s) \<and> truthy (qr upd)")
  case False
  with assms fields_update_rest [of s h upd] show ?thesis
    by (auto simp: connection_update_def split: if_splits)
next
  case True
  with assms obtain u where u: "s1 = update_rest (update_qr s (socks s ! h) u) h upd"
    by (cases r) (auto simp: connection_update_def)
  from fields_update_rest [of "update_qr s (socks s ! h) u" h upd] u
  show ?thesis by (simp add: update_qr_def emit_fields)
qed

lemma fields_get_messages:
  "get_messages s i = Some (s1, r) \<Longrightarrow>
   connections s1 = connections s \<and> connections_proto s1 = connections_proto s \<and> socks s1 = socks s"
  using get_messages_state [of s i s1 r] by auto

lemma valid_step:
  assumes "step s e = Some s1"
          "(\<forall>i h. connections s i = Some h \<longrightarrow> h < length (socks s)) \<and> (\<forall>h. connections_proto s = Some h \<longrightarrow> h < length (socks s))"
  shows "(\<forall>i h. connections s1 i = Some h \<longrightarrow> h < length (socks s1)) \<and> (\<forall>h. connections_proto s1 = Some h \<longrightarrow> h < length (socks s1))"
proof (cases e)
  case (http_start j)
  with assms show ?thesis
    by (auto simp: start_session_def call_start_def split: found.splits)
next
  case (ws_start k j)
  with assms show ?thesis by (auto simp: call_start_def)
next
  case (credentials_loaded t auth)
  with assms valid_auth_loaded [of s t auth s1] show ?thesis by simp
next
  case (engine_update h upd r)
  with assms obtain "connection_update s h upd r = Inr s1" by (auto split: sum.splits)
  from fields_connection_update [OF this] assms(2) show ?thesis by (auto; blast)
next
  case (engine_messages h data)
  with assms have "messages_upsert s h data = Some (Inr s1)"
    by (auto split: option.splits sum.splits)
  from fields_messages_upsert [OF this] assms(2) show ?thesis by simp
next
  case (engine_sets_user h u)
  with assms show ?thesis by (auto simp: engine_user_def split: if_splits)
next
  case (http_messages j)
  with assms obtain r where "get_messages s j = Some (s1, r)" by auto
  from fields_get_messages [OF this] assms(2) show ?thesis by simp
next
  case (http_disconnect j)
  with assms show ?thesis
    by (auto simp: disconnect_begin_def split: found.splits)
next
  case (logout_answered j r)
  with assms show ?thesis
    by (auto simp: disconnect_resume_def split: sum.splits if_splits)
next
  case (http_send j n m r)
  with assms show ?thesis
    by (auto simp: send_message_def split: found.splits option.splits)
qed

lemma valid_run:
  assumes "run init evs = Some s" "connection_of s i = a_value h"
  shows "h < length (socks s)"
proof -
  have "(\<forall>i h. connections s1 i = Some h \<longrightarrow> h < length (socks s1)) \<and> (\<forall>h. connections_proto s1 = Some h \<longrightarrow> h < length (socks s1))"
    if "run s0 evs = Some s1"
       "(\<forall>i h. connections s0 i = Some h \<longrightarrow> h < length (socks s0)) \<and> (\<forall>h. connections_proto s0 = Some h \<longrightarrow> h < length (socks s0))"
    for s0 s1
    using that
  proof (induction evs arbitrary: s0)
    case Nil
    then show ?case by simp
  next
    case (Cons e evs)
    from Cons.prems(1) obtain s2 where s2: "step s0 e = Some s2" "run s2 evs = Some s1"
      by (auto split: option.splits)
    from valid_step [OF s2(1) Cons.prems(2)] s2(2) show ?case by (rule Cons.IH [rotated])
  qed
  from this [OF assms(1)]
  have v: "(\<forall>i h. connections s i = Some h \<longrightarrow> h < length (socks s)) \<and> (\<forall>h. connections_proto s = Some h \<longrightarrow> h < length (socks s))"
    by (simp add: init_def)
  from assms(2) have "(\<exists>i. connections s i = Some h) \<or> connections_proto s = Some h"
    by (auto simp: connection_of_def lookup_def split: option.splits if_splits)
  with v show ?thesis by blast
qed

end
